theory Spec2Isabelle
  imports Main
begin

section \<open>Data model of \<^verbatim>\<open>src/global-snippets.js\<close>\<close>

text \<open>
  A version is the object literal built in \<^verbatim>\<open>StorageManager.saveSnippet\<close>
  (fields \<^verbatim>\<open>version\<close>, \<^verbatim>\<open>html\<close>, \<^verbatim>\<open>timestamp\<close>, \<^verbatim>\<open>author\<close>); a snippet is
  the object literal created there on first save (fields \<^verbatim>\<open>id\<close>, \<^verbatim>\<open>versions\<close>,
  \<^verbatim>\<open>currentVersion\<close>). JavaScript numbers that hold array lengths and indices are
  modelled as \<open>int\<close>, so that an index can be compared with \<open>0\<close> from below.
  The field \<^verbatim>\<open>id\<close> is called \<open>snippetId\<close> because \<open>id\<close> is the identity function of HOL.
\<close>

record snippet_version =
  version :: int
  html :: string
  timestamp :: string
  author :: string

record snippet =
  snippetId :: string
  versions :: "snippet_version list"
  currentVersion :: int

text \<open>
  The collection is the plain object used as a dictionary from snippet id to snippet;
  the map holds its own properties. Every such object (an object literal, a spread, a
  result of \<^verbatim>\<open>JSON.parse\<close>) has \<^verbatim>\<open>Object.prototype\<close> as its prototype, so reading
  \<^verbatim>\<open>allSnippets[snippetId]\<close> for a name it does not own yields the inherited property
  when \<^verbatim>\<open>Object.prototype\<close> has one of that name (a function, or for \<^verbatim>\<open>__proto__\<close> the
  prototype itself: truthy, and without a \<^verbatim>\<open>versions\<close> property) and \<^verbatim>\<open>undefined\<close>
  otherwise.
\<close>

type_synonym collection = "string \<rightharpoonup> snippet"

definition inherited :: "string \<Rightarrow> bool" where
  "inherited name =
     (name \<in> set [''constructor'', ''__proto__'', ''hasOwnProperty'', ''isPrototypeOf'',
                   ''propertyIsEnumerable'', ''toLocaleString'', ''toString'', ''valueOf'',
                   ''__defineGetter__'', ''__defineSetter__'', ''__lookupGetter__'',
                   ''__lookupSetter__''])"

datatype 'a property = Own 'a | Inherited | Missing

definition getProperty :: "collection \<Rightarrow> string \<Rightarrow> snippet property" where
  "getProperty allSnippets name =
     (case allSnippets name of
        Some sn \<Rightarrow> Own sn
      | None \<Rightarrow> if inherited name then Inherited else Missing)"

text \<open>
  The value of \<^verbatim>\<open>CONFIG.maxVersionHistory\<close>: 10 at the start, and afterwards whatever
  \<^verbatim>\<open>parseInt\<close> made of the settings field, an integer of either sign or \<^verbatim>\<open>NaN\<close>.
\<close>

datatype number = NaN | Number int

text \<open>
  What \<^verbatim>\<open>localStorage\<close> holds under \<^verbatim>\<open>CONFIG.storageKey\<close>: nothing, a string that
  \<^verbatim>\<open>JSON.parse\<close> rejects, or the serialisation of a collection.
\<close>

datatype stored = NoItem | Malformed | Item collection

text \<open>
  The observable input and output of the storage manager, in program order.
  \<open>LogError\<close> is a call of \<^verbatim>\<open>Utils.error\<close>, which always prints.
\<close>

datatype io =
    RemoteGet
  | LocalGet
  | LocalSet collection
  | RemotePut collection
  | LogError string

text \<open>
  The errors a caller can see: the \<^verbatim>\<open>Error('Version not found')\<close> of
  \<^verbatim>\<open>restoreVersion\<close>, the error rethrown by \<^verbatim>\<open>saveToAPI\<close>, the \<^verbatim>\<open>SyntaxError\<close> of
  \<^verbatim>\<open>JSON.parse\<close> in the import handler, and the \<^verbatim>\<open>TypeError\<close> of reading a property of
  \<^verbatim>\<open>undefined\<close>.
\<close>

datatype error = VersionNotFound | RemoteWriteError | InvalidImportData | TypeError

text \<open>
  The state is the two fields of \<^verbatim>\<open>StorageManager\<close>, the content of the local store,
  and the trace of input and output performed so far.
\<close>

record state =
  cache :: "collection option"
  syncInProgress :: bool
  localStorage :: stored
  trace :: "io list"

text \<open>
  What the environment decides during one call: the result of \<^verbatim>\<open>fetchFromAPI\<close>
  (\<open>None\<close> is its \<^verbatim>\<open>null\<close>, returned on every failure), whether
  \<^verbatim>\<open>localStorage.setItem\<close> accepts a given collection (it throws when the quota is
  exceeded or storage is disabled), whether the \<^verbatim>\<open>PUT\<close> request of \<^verbatim>\<open>saveToAPI\<close>
  succeeds, and the clock read by \<^verbatim>\<open>new Date().toISOString()\<close>.
\<close>

record env =
  fetchFromAPI :: "collection option"
  setItem_ok :: "collection \<Rightarrow> bool"
  put_ok :: bool
  now :: string

definition initial :: state where
  "initial = \<lparr>cache = None, syncInProgress = False, localStorage = NoItem, trace = []\<rparr>"

section \<open>The storage manager\<close>

definition loadFromLocalStorage :: "state \<Rightarrow> collection \<times> state" where
  "loadFromLocalStorage s =
     (case localStorage s of
        NoItem \<Rightarrow> (Map.empty, s\<lparr>trace := trace s @ [LocalGet]\<rparr>)
      | Malformed \<Rightarrow>
          (Map.empty,
           s\<lparr>trace := trace s @ [LocalGet, LogError ''Failed to load from localStorage'']\<rparr>)
      | Item c \<Rightarrow> (c, s\<lparr>trace := trace s @ [LocalGet]\<rparr>))"

definition saveToLocalStorage :: "env \<Rightarrow> collection \<Rightarrow> state \<Rightarrow> state" where
  "saveToLocalStorage e data s =
     (if setItem_ok e data
      then s\<lparr>localStorage := Item data, trace := trace s @ [LocalSet data]\<rparr>
      else s\<lparr>trace := trace s @ [LocalSet data, LogError ''Failed to save to localStorage'']\<rparr>)"

text \<open>
  \<^verbatim>\<open>getAllSnippets\<close>: the cache if there is one, else the remote collection (mirrored
  into the local store), else the local store. The returned object is the cache
  object itself, so the in-place updates the callers make to it are updates of the
  cache; the model writes them as updates of \<open>cache\<close>.
\<close>

definition getAllSnippets :: "env \<Rightarrow> state \<Rightarrow> collection \<times> state" where
  "getAllSnippets e s =
     (case cache s of
        Some c \<Rightarrow> (c, s)
      | None \<Rightarrow>
         (case fetchFromAPI e of
            Some apiData \<Rightarrow>
              (apiData,
               saveToLocalStorage e apiData
                 (s\<lparr>cache := Some apiData, trace := trace s @ [RemoteGet]\<rparr>))
          | None \<Rightarrow>
              (let (localData, s1) = loadFromLocalStorage (s\<lparr>trace := trace s @ [RemoteGet]\<rparr>)
               in (localData, s1\<lparr>cache := Some localData\<rparr>))))"

text \<open>
  \<^verbatim>\<open>saveToAPI\<close> in two halves. \<open>saveToAPI_begin\<close> runs up to the \<^verbatim>\<open>await fetch\<close>:
  it returns at once when a push is in flight, and otherwise raises the flag and sends
  the request. \<open>saveToAPI_end\<close> is the rest, run when the request settles: the
  \<^verbatim>\<open>catch\<close> logs and rethrows, the \<^verbatim>\<open>finally\<close> lowers the flag.
\<close>

definition saveToAPI_begin :: "collection \<Rightarrow> state \<Rightarrow> bool \<times> state" where
  "saveToAPI_begin data s =
     (if syncInProgress s then (False, s)
      else (True, s\<lparr>syncInProgress := True, trace := trace s @ [RemotePut data]\<rparr>))"

definition saveToAPI_end :: "env \<Rightarrow> state \<Rightarrow> (error + unit) \<times> state" where
  "saveToAPI_end e s =
     (if put_ok e then (Inr (), s\<lparr>syncInProgress := False\<rparr>)
      else (Inl RemoteWriteError,
            s\<lparr>syncInProgress := False, trace := trace s @ [LogError ''Failed to save to API'']\<rparr>))"

text \<open>
  An awaited \<^verbatim>\<open>saveToAPI\<close>, as in \<^verbatim>\<open>deleteSnippet\<close>, \<^verbatim>\<open>restoreVersion\<close> and the
  import handler: both halves, with nothing else running in between.
\<close>

definition saveToAPI :: "env \<Rightarrow> collection \<Rightarrow> state \<Rightarrow> (error + unit) \<times> state" where
  "saveToAPI e data s =
     (case saveToAPI_begin data s of
        (False, s1) \<Rightarrow> (Inr (), s1)
      | (True, s1) \<Rightarrow> saveToAPI_end e s1)"

text \<open>
  \<^verbatim>\<open>Array.prototype.slice(start)\<close> for an integer \<open>start\<close>: a negative \<open>start\<close> counts
  from the end and stops at the front; any other is cut at the length.
\<close>

definition slice :: "int \<Rightarrow> 'a list \<Rightarrow> 'a list" where
  "slice start xs =
     (let len = int (length xs);
          k = (if start < 0 then max (len + start) 0 else min start len)
      in drop (nat k) xs)"

text \<open>
  \<^verbatim>\<open>saveSnippet(snippetId, data)\<close> with \<^verbatim>\<open>data = {html, author}\<close>; an empty author
  is falsy and becomes \<^verbatim>\<open>'unknown'\<close>. \<open>maxVersionHistory\<close> is the mutable
  \<^verbatim>\<open>CONFIG.maxVersionHistory\<close>. When \<^verbatim>\<open>allSnippets[snippetId]\<close> is an inherited property
  it is truthy, so no snippet is created, and \<^verbatim>\<open>snippet.versions.length\<close> throws before
  anything is written. A comparison with \<^verbatim>\<open>NaN\<close> is false. The remote push is started
  and not awaited, so the call returns with the request in flight;
  \<open>saveSnippet_settled\<close> is what runs later.
\<close>

definition saveSnippet ::
  "env \<Rightarrow> number \<Rightarrow> string \<Rightarrow> string \<Rightarrow> string \<Rightarrow> state
     \<Rightarrow> (error + snippet_version) \<times> state" where
  "saveSnippet e maxVersionHistory sid h a s =
     (let (allSnippets, s1) = getAllSnippets e s
      in if getProperty allSnippets sid = Inherited then (Inl TypeError, s1)
         else
          (let snippet = (case allSnippets sid of
                            None \<Rightarrow> \<lparr>snippetId = sid, versions = [], currentVersion = 0\<rparr>
                          | Some sn \<Rightarrow> sn);
               newVersion = \<lparr>version = int (length (versions snippet)), html = h,
                             timestamp = now e,
                             author = (if a = [] then ''unknown'' else a)\<rparr>;
               pushed = versions snippet @ [newVersion];
               kept = (case maxVersionHistory of
                         NaN \<Rightarrow> pushed
                       | Number m \<Rightarrow>
                           if m < int (length pushed) then slice (- m) pushed else pushed);
               snippet' = snippet\<lparr>versions := kept, currentVersion := version newVersion\<rparr>;
               allSnippets' = allSnippets(sid \<mapsto> snippet');
               s2 = saveToLocalStorage e allSnippets' (s1\<lparr>cache := Some allSnippets'\<rparr>);
               (started, s3) = saveToAPI_begin allSnippets' s2
           in (Inr newVersion, s3)))"

text \<open>
  The request started by \<^verbatim>\<open>saveSnippet\<close> settles: \<^verbatim>\<open>saveToAPI\<close> finishes and the
  \<^verbatim>\<open>.catch\<close> handler of \<^verbatim>\<open>saveSnippet\<close> logs a rejection a second time.
\<close>

definition saveSnippet_settled :: "env \<Rightarrow> state \<Rightarrow> state" where
  "saveSnippet_settled e s =
     (case saveToAPI_end e s of
        (Inr u, s1) \<Rightarrow> s1
      | (Inl err, s1) \<Rightarrow> s1\<lparr>trace := trace s1 @ [LogError ''Failed to save to API'']\<rparr>)"

definition deleteSnippet :: "env \<Rightarrow> string \<Rightarrow> state \<Rightarrow> (error + unit) \<times> state" where
  "deleteSnippet e sid s =
     (let (allSnippets, s1) = getAllSnippets e s;
          allSnippets' = allSnippets(sid := None);
          s2 = saveToLocalStorage e allSnippets' (s1\<lparr>cache := Some allSnippets'\<rparr>)
      in saveToAPI e allSnippets' s2)"

text \<open>
  \<^verbatim>\<open>restoreVersion(snippetId, versionNumber)\<close>: \<^verbatim>\<open>snippet.versions[versionNumber]\<close> is
  \<^verbatim>\<open>undefined\<close> outside the array, and every element of the array is an object. For
  an inherited property \<^verbatim>\<open>snippet.versions\<close> is \<^verbatim>\<open>undefined\<close> and indexing it throws.
\<close>

definition restoreVersion ::
  "env \<Rightarrow> string \<Rightarrow> int \<Rightarrow> state \<Rightarrow> (error + snippet_version) \<times> state" where
  "restoreVersion e sid versionNumber s =
     (let (allSnippets, s1) = getAllSnippets e s
      in case getProperty allSnippets sid of
           Missing \<Rightarrow> (Inl VersionNotFound, s1)
         | Inherited \<Rightarrow> (Inl TypeError, s1)
         | Own snippet \<Rightarrow>
             if versionNumber < 0 \<or> int (length (versions snippet)) \<le> versionNumber
             then (Inl VersionNotFound, s1)
             else
               (let allSnippets' = allSnippets(sid \<mapsto> snippet\<lparr>currentVersion := versionNumber\<rparr>);
                    s2 = saveToLocalStorage e allSnippets' (s1\<lparr>cache := Some allSnippets'\<rparr>)
                in case saveToAPI e allSnippets' s2 of
                     (Inl err, s3) \<Rightarrow> (Inl err, s3)
                   | (Inr u, s3) \<Rightarrow> (Inr (versions snippet ! nat versionNumber), s3)))"

text \<open>
  The click handler of the import button in \<^verbatim>\<open>UIManager.showImportExport\<close>, after the
  user has confirmed: \<open>None\<close> is a text that \<^verbatim>\<open>JSON.parse\<close> rejects, and
  \<^verbatim>\<open>{...currentSnippets, ...snippets}\<close> is the map override.
\<close>

definition importSnippets :: "env \<Rightarrow> collection option \<Rightarrow> state \<Rightarrow> (error + unit) \<times> state" where
  "importSnippets e importData s =
     (case importData of
        None \<Rightarrow> (Inl InvalidImportData, s)
      | Some snippets \<Rightarrow>
          (let (currentSnippets, s1) = getAllSnippets e s;
               mergedSnippets = currentSnippets ++ snippets;
               s2 = saveToLocalStorage e mergedSnippets (s1\<lparr>cache := Some mergedSnippets\<rparr>)
           in saveToAPI e mergedSnippets s2))"

text \<open>
  Calls of \<^verbatim>\<open>saveSnippet\<close> for one id made one after the other, each awaited before
  the next is made. Each call has its own environment and its own \<^verbatim>\<open>html\<close> and
  \<^verbatim>\<open>author\<close>; a call that throws is caught by its caller and the next call is made all
  the same.
\<close>

fun saveSnippets ::
  "number \<Rightarrow> string \<Rightarrow> (env \<times> string \<times> string) list \<Rightarrow> state \<Rightarrow> state" where
  "saveSnippets cap sid [] s = s"
| "saveSnippets cap sid ((e, h, a) # cs) s =
     saveSnippets cap sid cs (snd (saveSnippet e cap sid h a s))"

text \<open>What a version records of the call that made it, apart from its number.\<close>

definition payload :: "snippet_version \<Rightarrow> string \<times> string \<times> string" where
  "payload v = (html v, timestamp v, author v)"

definition payload_of_call :: "env \<times> string \<times> string \<Rightarrow> string \<times> string \<times> string" where
  "payload_of_call x =
     (case x of (e, h, a) \<Rightarrow> (h, now e, if a = [] then ''unknown'' else a))"

text \<open>The versions the cache holds for an id; none when the cache or the id is absent.\<close>

definition versions_at :: "state \<Rightarrow> string \<Rightarrow> snippet_version list" where
  "versions_at s sid =
     (case cache s of
        None \<Rightarrow> []
      | Some c \<Rightarrow> (case c sid of None \<Rightarrow> [] | Some sn \<Rightarrow> versions sn))"

definition current_at :: "state \<Rightarrow> string \<Rightarrow> int option" where
  "current_at s sid =
     (case cache s of
        None \<Rightarrow> None
      | Some c \<Rightarrow> (case c sid of None \<Rightarrow> None | Some sn \<Rightarrow> Some (currentVersion sn)))"

definition cached :: "state \<Rightarrow> string \<Rightarrow> snippet option" where
  "cached s sid = (case cache s of None \<Rightarrow> None | Some c \<Rightarrow> c sid)"

text \<open>The snippet the local store holds for an id.\<close>

definition stored_at :: "state \<Rightarrow> string \<Rightarrow> snippet option" where
  "stored_at s sid = (case localStorage s of Item c \<Rightarrow> c sid | NoItem \<Rightarrow> None | Malformed \<Rightarrow> None)"

section \<open>Auto-save\<close>

text \<open>
  \<^verbatim>\<open>Utils.debounce(func, wait)\<close> returns a closure over one variable \<^verbatim>\<open>timeout\<close>.
  A call clears the timer held there and sets a new one that is due \<open>wait\<close>
  milliseconds later and will call \<^verbatim>\<open>func\<close> with the arguments of that call. The
  variable is modelled by the pending timer, if any: its due time and its arguments.
\<close>

type_synonym 'a timer = "(nat \<times> 'a) option"

definition executedFunction :: "nat \<Rightarrow> nat \<Rightarrow> 'a \<Rightarrow> 'a timer \<Rightarrow> 'a timer" where
  "executedFunction wait t args timeout = Some (t + wait, args)"

text \<open>The timer runs \<^verbatim>\<open>later\<close> once the clock has reached its due time.\<close>

definition later :: "nat \<Rightarrow> 'a timer \<Rightarrow> 'a option \<times> 'a timer" where
  "later t timeout =
     (case timeout of
        None \<Rightarrow> (None, None)
      | Some (due, args) \<Rightarrow> if due \<le> t then (Some args, None) else (None, timeout))"

text \<open>
  \<^verbatim>\<open>SnippetManager.setupAutoSave\<close> makes one \<^verbatim>\<open>debouncedSave\<close> and one observer for
  all watched elements. Elements are handles; the page gives each its
  \<^verbatim>\<open>data-global-snippet-id\<close> attribute, if it has one, and its \<^verbatim>\<open>innerHTML\<close>.
  \<open>saves\<close> lists the calls \<^verbatim>\<open>storage.saveSnippet(snippetId, {html, author: 'auto-save'})\<close>
  made so far as pairs of id and html.
\<close>

type_synonym element = nat

record autosave =
  clock :: nat
  snippetAttribute :: "element \<rightharpoonup> string"
  innerHTML :: "element \<Rightarrow> string"
  timeout :: "(string \<times> element) timer"
  saves :: "(string \<times> string) list"

text \<open>
  The observer is attached. \<open>Mutation el h\<close>: the content of \<open>el\<close> becomes \<open>h\<close> and
  the observer callback runs with one mutation record whose target is \<open>el\<close>; a target
  without the attribute, or with an empty one, schedules nothing. \<open>Elapse d\<close>: \<open>d\<close> milliseconds pass
  with no mutation, and a timer that has become due runs, reading \<^verbatim>\<open>element.innerHTML\<close>
  at that moment.
\<close>

datatype event = Mutation element string | Elapse nat

fun step :: "nat \<Rightarrow> event \<Rightarrow> autosave \<Rightarrow> autosave" where
  "step autoSaveDelay (Mutation el h) st =
     (let st1 = st\<lparr>innerHTML := (innerHTML st)(el := h)\<rparr>
      in case snippetAttribute st1 el of
           None \<Rightarrow> st1
         | Some sid \<Rightarrow>
             if sid = [] then st1
             else st1\<lparr>timeout :=
                        executedFunction autoSaveDelay (clock st1) (sid, el) (timeout st1)\<rparr>)"
| "step autoSaveDelay (Elapse d) st =
     (let st1 = st\<lparr>clock := clock st + d\<rparr>
      in case later (clock st1) (timeout st1) of
           (None, tm) \<Rightarrow> st1\<lparr>timeout := tm\<rparr>
         | (Some (sid, el), tm) \<Rightarrow>
             st1\<lparr>timeout := tm, saves := saves st1 @ [(sid, innerHTML st1 el)]\<rparr>)"

fun run :: "nat \<Rightarrow> event list \<Rightarrow> autosave \<Rightarrow> autosave" where
  "run autoSaveDelay [] st = st"
| "run autoSaveDelay (ev # evs) st = run autoSaveDelay evs (step autoSaveDelay ev st)"

section \<open>Scenarios\<close>

text \<open>
  Concrete environments and states for the closed theorems below: an environment in
  which the remote store cannot be read and every write succeeds, the same with a
  failing \<^verbatim>\<open>PUT\<close>, the same with a local store that rejects every write; the state
  after one save of snippet \<^verbatim>\<open>a\<close> whose push has settled, and after a second one.
\<close>

definition env_ok :: env where
  "env_ok = \<lparr>fetchFromAPI = None, setItem_ok = (\<lambda>c. True), put_ok = True,
             now = ''2024-01-01T00:00:00.000Z''\<rparr>"

definition env_put_fails :: env where
  "env_put_fails = env_ok\<lparr>put_ok := False\<rparr>"

definition env_quota :: env where
  "env_quota = env_ok\<lparr>setItem_ok := (\<lambda>c. False)\<rparr>"

definition env_all_fail :: env where
  "env_all_fail = env_ok\<lparr>setItem_ok := (\<lambda>c. False), put_ok := False\<rparr>"

definition one_saved :: state where
  "one_saved =
     saveSnippet_settled env_ok (snd (saveSnippet env_ok (Number 10) ''a'' ''A'' ''me'' initial))"

definition two_saved :: state where
  "two_saved =
     saveSnippet_settled env_ok (snd (saveSnippet env_ok (Number 10) ''a'' ''B'' ''me'' one_saved))"

text \<open>A collection to import: one snippet \<^verbatim>\<open>b\<close> with one version.\<close>

definition incoming :: collection where
  "incoming =
     [''b'' \<mapsto> \<lparr>snippetId = ''b'',
                   versions = [\<lparr>version = 0, html = ''X'',
                                timestamp = ''2023-12-31T00:00:00.000Z'', author = ''them''\<rparr>],
                   currentVersion = 0\<rparr>]"

text \<open>The number of remote pushes in a trace.\<close>

fun is_RemotePut :: "io \<Rightarrow> bool" where
  "is_RemotePut (RemotePut c) = True"
| "is_RemotePut x = False"

definition pushes :: "io list \<Rightarrow> nat" where
  "pushes tr = length (filter is_RemotePut tr)"

text \<open>A page with two watched elements: element 1 carries snippet \<^verbatim>\<open>a\<close>, element 2
  carries snippet \<^verbatim>\<open>b\<close>.\<close>

definition two_regions :: autosave where
  "two_regions = \<lparr>clock = 0, snippetAttribute = [1 \<mapsto> ''a'', 2 \<mapsto> ''b''],
                  innerHTML = (\<lambda>el. []), timeout = None, saves = []\<rparr>"

section \<open>Facts about the parts\<close>

lemmas evaluate =
  env_ok_def env_put_fails_def env_quota_def env_all_fail_def one_saved_def two_saved_def
  incoming_def initial_def inherited_def getProperty_def
  saveSnippet_def getAllSnippets_def loadFromLocalStorage_def saveToLocalStorage_def
  saveToAPI_begin_def saveToAPI_end_def saveToAPI_def slice_def versions_at_def
  current_at_def cached_def stored_at_def Let_def saveSnippet_settled_def restoreVersion_def
  deleteSnippet_def importSnippets_def pushes_def

lemma saveToLocalStorage_cache: "cache (saveToLocalStorage e d s) = cache s"
  by (simp add: saveToLocalStorage_def)

lemma saveToLocalStorage_sync: "syncInProgress (saveToLocalStorage e d s) = syncInProgress s"
  by (simp add: saveToLocalStorage_def)

lemma saveToLocalStorage_store:
  "localStorage (saveToLocalStorage e d s) = (if setItem_ok e d then Item d else localStorage s)"
  by (simp add: saveToLocalStorage_def)

lemma saveToLocalStorage_trace:
  "trace (saveToLocalStorage e d s) =
     trace s @ LocalSet d # (if setItem_ok e d then [] else [LogError ''Failed to save to localStorage''])"
  by (simp add: saveToLocalStorage_def)

lemma getAllSnippets_cache: "cache (snd (getAllSnippets e s)) = Some (fst (getAllSnippets e s))"
  by (simp add: getAllSnippets_def saveToLocalStorage_cache loadFromLocalStorage_def
      split: option.split stored.split)

lemma getAllSnippets_sync: "syncInProgress (snd (getAllSnippets e s)) = syncInProgress s"
  by (simp add: getAllSnippets_def saveToLocalStorage_sync loadFromLocalStorage_def
      split: option.split stored.split)

lemma getAllSnippets_hit: "cache s = Some c \<Longrightarrow> getAllSnippets e s = (c, s)"
  by (simp add: getAllSnippets_def)

lemma getAllSnippets_state_hit: "cache s = Some c \<Longrightarrow> snd (getAllSnippets e s) = s"
  by (simp add: getAllSnippets_def)

lemma saveToAPI_begin_cache: "cache (snd (saveToAPI_begin d s)) = cache s"
  by (simp add: saveToAPI_begin_def)

lemma saveToAPI_begin_store: "localStorage (snd (saveToAPI_begin d s)) = localStorage s"
  by (simp add: saveToAPI_begin_def)

lemma saveToAPI_cache: "cache (snd (saveToAPI e d s)) = cache s"
  by (simp add: saveToAPI_def saveToAPI_begin_def saveToAPI_end_def)

lemma saveToAPI_store: "localStorage (snd (saveToAPI e d s)) = localStorage s"
  by (simp add: saveToAPI_def saveToAPI_begin_def saveToAPI_end_def)

lemma saveToAPI_sync: "syncInProgress (snd (saveToAPI e d s)) = syncInProgress s"
  by (simp add: saveToAPI_def saveToAPI_begin_def saveToAPI_end_def)

lemma saveToAPI_result:
  "fst (saveToAPI e d s) =
     (if \<not> syncInProgress s \<and> \<not> put_ok e then Inl RemoteWriteError else Inr ())"
  by (simp add: saveToAPI_def saveToAPI_begin_def saveToAPI_end_def)

lemma saveToAPI_trace:
  "trace (snd (saveToAPI e d s)) =
     trace s @ (if syncInProgress s then []
                else RemotePut d # (if put_ok e then [] else [LogError ''Failed to save to API'']))"
  by (simp add: saveToAPI_def saveToAPI_begin_def saveToAPI_end_def)

lemma saveSnippet_settled_cache: "cache (saveSnippet_settled e s) = cache s"
  by (simp add: saveSnippet_settled_def saveToAPI_end_def)

lemma saveSnippet_settled_store: "localStorage (saveSnippet_settled e s) = localStorage s"
  by (simp add: saveSnippet_settled_def saveToAPI_end_def)

subsection \<open>\<^verbatim>\<open>deleteSnippet\<close>\<close>

lemma deleteSnippet_cache:
  "cache (snd (deleteSnippet e sid s)) = Some ((fst (getAllSnippets e s))(sid := None))"
  by (simp add: deleteSnippet_def split_beta Let_def saveToAPI_cache saveToLocalStorage_cache)

lemma deleteSnippet_result:
  "fst (deleteSnippet e sid s) =
     (if \<not> syncInProgress s \<and> \<not> put_ok e then Inl RemoteWriteError else Inr ())"
  by (simp add: deleteSnippet_def split_beta Let_def saveToAPI_result saveToLocalStorage_sync
      getAllSnippets_sync)

lemma deleteSnippet_sync: "syncInProgress (snd (deleteSnippet e sid s)) = syncInProgress s"
  by (simp add: deleteSnippet_def split_beta Let_def saveToAPI_sync saveToLocalStorage_sync
      getAllSnippets_sync)

lemma deleteSnippet_store:
  "localStorage (snd (deleteSnippet e sid s)) =
     (if setItem_ok e ((fst (getAllSnippets e s))(sid := None))
      then Item ((fst (getAllSnippets e s))(sid := None))
      else localStorage (snd (getAllSnippets e s)))"
  by (simp add: deleteSnippet_def split_beta Let_def saveToAPI_store saveToLocalStorage_store)

lemma deleteSnippet_trace:
  "trace (snd (deleteSnippet e sid s)) =
     trace (snd (getAllSnippets e s))
       @ LocalSet ((fst (getAllSnippets e s))(sid := None))
       # (if setItem_ok e ((fst (getAllSnippets e s))(sid := None)) then []
          else [LogError ''Failed to save to localStorage''])
       @ (if syncInProgress s then []
          else RemotePut ((fst (getAllSnippets e s))(sid := None))
               # (if put_ok e then [] else [LogError ''Failed to save to API'']))"
  by (simp add: deleteSnippet_def split_beta Let_def saveToAPI_trace saveToLocalStorage_trace
      saveToLocalStorage_sync getAllSnippets_sync)

subsection \<open>\<^verbatim>\<open>restoreVersion\<close> and the import\<close>

lemma restoreVersion_cache:
  "cache (snd (restoreVersion e sid k s)) =
     Some (let c = fst (getAllSnippets e s)
           in case c sid of
                None \<Rightarrow> c
              | Some sn \<Rightarrow>
                  if k < 0 \<or> int (length (versions sn)) \<le> k then c
                  else c(sid \<mapsto> sn\<lparr>currentVersion := k\<rparr>))"
  by (simp add: restoreVersion_def getProperty_def split_beta Let_def saveToAPI_cache
       saveToLocalStorage_cache getAllSnippets_cache split: option.split sum.split)

lemma restoreVersion_result:
  "fst (restoreVersion e sid k s) =
     (case getProperty (fst (getAllSnippets e s)) sid of
        Missing \<Rightarrow> Inl VersionNotFound
      | Inherited \<Rightarrow> Inl TypeError
      | Own sn \<Rightarrow>
          if k < 0 \<or> int (length (versions sn)) \<le> k then Inl VersionNotFound
          else if \<not> syncInProgress s \<and> \<not> put_ok e then Inl RemoteWriteError
          else Inr (versions sn ! nat k))"
  by (simp add: restoreVersion_def split_beta Let_def saveToAPI_result saveToLocalStorage_sync
       getAllSnippets_sync split: property.split sum.split)

lemma restoreVersion_missing:
  "getProperty (fst (getAllSnippets e s)) sid = Missing \<Longrightarrow>
     restoreVersion e sid k s = (Inl VersionNotFound, snd (getAllSnippets e s))"
  by (simp add: restoreVersion_def split_beta)

lemma restoreVersion_inherited:
  "getProperty (fst (getAllSnippets e s)) sid = Inherited \<Longrightarrow>
     restoreVersion e sid k s = (Inl TypeError, snd (getAllSnippets e s))"
  by (simp add: restoreVersion_def split_beta)

lemma restoreVersion_range:
  "getProperty (fst (getAllSnippets e s)) sid = Own sn \<Longrightarrow>
   k < 0 \<or> int (length (versions sn)) \<le> k \<Longrightarrow>
     restoreVersion e sid k s = (Inl VersionNotFound, snd (getAllSnippets e s))"
  by (simp add: restoreVersion_def split_beta)

lemma restoreVersion_write:
  assumes "getProperty (fst (getAllSnippets e s)) sid = Own sn"
    and "\<not> (k < 0 \<or> int (length (versions sn)) \<le> k)"
  shows "snd (restoreVersion e sid k s) =
           snd (saveToAPI e ((fst (getAllSnippets e s))(sid \<mapsto> sn\<lparr>currentVersion := k\<rparr>))
                  (saveToLocalStorage e ((fst (getAllSnippets e s))(sid \<mapsto> sn\<lparr>currentVersion := k\<rparr>))
                     ((snd (getAllSnippets e s))
                        \<lparr>cache := Some ((fst (getAllSnippets e s))(sid \<mapsto> sn\<lparr>currentVersion := k\<rparr>))\<rparr>)))"
  using assms
  by (simp add: restoreVersion_def split_beta Let_def split: sum.split)

lemma getProperty_Own: "getProperty c sid = Own sn \<longleftrightarrow> c sid = Some sn"
  by (simp add: getProperty_def split: option.split)

lemma restoreVersion_early:
  assumes "fst (restoreVersion e sid k s) = Inl err" and "err \<noteq> RemoteWriteError"
  shows "snd (restoreVersion e sid k s) = snd (getAllSnippets e s)"
proof (cases "getProperty (fst (getAllSnippets e s)) sid")
  case (Own sn)
  show ?thesis
  proof (cases "k < 0 \<or> int (length (versions sn)) \<le> k")
    case True
    with Own show ?thesis by (simp add: restoreVersion_range)
  next
    case False
    with Own assms show ?thesis by (simp add: restoreVersion_result split: if_splits)
  qed
next
  case Inherited
  then show ?thesis by (simp add: restoreVersion_inherited)
next
  case Missing
  then show ?thesis by (simp add: restoreVersion_missing)
qed

lemma restoreVersion_pushed:
  assumes "fst (restoreVersion e sid k s) = Inl RemoteWriteError"
  shows "\<exists>sn. fst (getAllSnippets e s) sid = Some sn
           \<and> cache (snd (restoreVersion e sid k s)) =
               Some ((fst (getAllSnippets e s))(sid \<mapsto> sn\<lparr>currentVersion := k\<rparr>))
           \<and> localStorage (snd (restoreVersion e sid k s)) =
               (if setItem_ok e ((fst (getAllSnippets e s))(sid \<mapsto> sn\<lparr>currentVersion := k\<rparr>))
                then Item ((fst (getAllSnippets e s))(sid \<mapsto> sn\<lparr>currentVersion := k\<rparr>))
                else localStorage (snd (getAllSnippets e s)))"
proof (cases "getProperty (fst (getAllSnippets e s)) sid")
  case (Own sn)
  then have own: "fst (getAllSnippets e s) sid = Some sn" by (simp add: getProperty_Own)
  from Own assms have inr: "\<not> (k < 0 \<or> int (length (versions sn)) \<le> k)"
    by (auto simp: restoreVersion_result)
  note w = restoreVersion_write[OF Own inr]
  have "cache (snd (restoreVersion e sid k s)) =
          Some ((fst (getAllSnippets e s))(sid \<mapsto> sn\<lparr>currentVersion := k\<rparr>))"
    by (simp add: w saveToAPI_cache saveToLocalStorage_cache)
  moreover have "localStorage (snd (restoreVersion e sid k s)) =
               (if setItem_ok e ((fst (getAllSnippets e s))(sid \<mapsto> sn\<lparr>currentVersion := k\<rparr>))
                then Item ((fst (getAllSnippets e s))(sid \<mapsto> sn\<lparr>currentVersion := k\<rparr>))
                else localStorage (snd (getAllSnippets e s)))"
    by (simp add: w saveToAPI_store saveToLocalStorage_store)
  ultimately show ?thesis using own by blast
next
  case Inherited
  with assms show ?thesis by (simp add: restoreVersion_result)
next
  case Missing
  with assms show ?thesis by (simp add: restoreVersion_result)
qed

text \<open>Whatever its arguments and its outcome, \<^verbatim>\<open>restoreVersion\<close> leaves every list of
  versions as \<^verbatim>\<open>getAllSnippets\<close> found it.\<close>

lemma restoreVersion_keeps_versions:
  "versions_at (snd (restoreVersion e sid k s)) x = versions_at (snd (getAllSnippets e s)) x"
  by (simp add: versions_at_def restoreVersion_cache getAllSnippets_cache Let_def
      split: option.split)

lemma importSnippets_cache:
  "cache (snd (importSnippets e (Some inc) s)) = Some (fst (getAllSnippets e s) ++ inc)"
  by (simp add: importSnippets_def split_beta Let_def saveToAPI_cache saveToLocalStorage_cache)

lemma importSnippets_store:
  "localStorage (snd (importSnippets e (Some inc) s)) =
     (if setItem_ok e (fst (getAllSnippets e s) ++ inc)
      then Item (fst (getAllSnippets e s) ++ inc)
      else localStorage (snd (getAllSnippets e s)))"
  by (simp add: importSnippets_def split_beta Let_def saveToAPI_store saveToLocalStorage_store)


subsection \<open>\<^verbatim>\<open>saveSnippet\<close>\<close>

lemma versions_at_view:
  "versions_at (snd (getAllSnippets e s)) sid =
     (case fst (getAllSnippets e s) sid of None \<Rightarrow> [] | Some sn \<Rightarrow> versions sn)"
  by (simp add: versions_at_def getAllSnippets_cache)

lemma versions_at_cached:
  "versions_at s sid \<noteq> [] \<Longrightarrow> \<exists>sn. cached s sid = Some sn \<and> versions sn = versions_at s sid"
  by (auto simp: versions_at_def cached_def split: option.splits)

lemma not_inherited_getProperty: "\<not> inherited sid \<Longrightarrow> getProperty c sid \<noteq> Inherited"
  by (simp add: getProperty_def split: option.split)

lemma getProperty_Inherited:
  "getProperty c sid = Inherited \<longleftrightarrow> c sid = None \<and> inherited sid"
  by (simp add: getProperty_def split: option.split)

lemma saveSnippet_inherited:
  "getProperty (fst (getAllSnippets e s)) sid = Inherited \<Longrightarrow>
     saveSnippet e cap sid h a s = (Inl TypeError, snd (getAllSnippets e s))"
  by (simp add: saveSnippet_def split_beta)

lemma saveSnippet_result:
  "getProperty (fst (getAllSnippets e s)) sid \<noteq> Inherited \<Longrightarrow>
   fst (saveSnippet e cap sid h a s) =
     Inr \<lparr>version = int (length (versions_at (snd (getAllSnippets e s)) sid)), html = h,
          timestamp = now e, author = (if a = [] then ''unknown'' else a)\<rparr>"
  by (simp add: saveSnippet_def split_beta Let_def versions_at_view split: option.split)

lemma saveSnippet_cache_some: "cache (snd (saveSnippet e cap sid h a s)) \<noteq> None"
  by (simp add: saveSnippet_def split_beta Let_def saveToAPI_begin_cache saveToLocalStorage_cache
      getAllSnippets_cache)

lemma saveSnippet_versions:
  "getProperty (fst (getAllSnippets e s)) sid \<noteq> Inherited \<Longrightarrow>
   versions_at (snd (saveSnippet e cap sid h a s)) sid =
     (let pushed = versions_at (snd (getAllSnippets e s)) sid
                     @ [\<lparr>version = int (length (versions_at (snd (getAllSnippets e s)) sid)),
                         html = h, timestamp = now e,
                         author = (if a = [] then ''unknown'' else a)\<rparr>]
      in case cap of
           NaN \<Rightarrow> pushed
         | Number m \<Rightarrow> if m < int (length pushed) then slice (- m) pushed else pushed)"
  by (simp add: saveSnippet_def split_beta Let_def versions_at_view saveToAPI_begin_cache
      saveToLocalStorage_cache versions_at_def[of "snd (saveToAPI_begin _ _)"]
      split: option.split number.split)

text \<open>The pointer set by a save is the length the list had before the push, whether or
  not the list is trimmed afterwards.\<close>

lemma saveSnippet_current:
  "getProperty (fst (getAllSnippets e s)) sid \<noteq> Inherited \<Longrightarrow>
   current_at (snd (saveSnippet e cap sid h a s)) sid =
     Some (int (length (versions_at (snd (getAllSnippets e s)) sid)))"
  by (simp add: saveSnippet_def split_beta Let_def versions_at_view saveToAPI_begin_cache
      saveToLocalStorage_cache current_at_def
      split: option.split)

lemma drop_last: "drop n ys = [] \<or> last (drop n ys) = last ys"
  by (cases "n < length ys") (simp_all add: last_drop)

lemma slice_last: "slice k (xs @ [v]) = [] \<or> last (slice k (xs @ [v])) = v"
  using drop_last[of _ "xs @ [v]"] by (simp add: slice_def Let_def del: drop_append)

lemma slice_neg_nonempty:
  "0 \<le> m \<Longrightarrow> m < int (length xs) \<Longrightarrow> slice (- m) xs \<noteq> []"
  by (auto simp: slice_def Let_def max_def min_def)

lemma keep_last:
  "1 \<le> n \<Longrightarrow>
     (if int n < int (length p) then slice (- int n) p else p) = drop (length p - n) p"
  by (auto simp: slice_def Let_def max_def nat_diff_distrib')


lemma payload_new:
  "payload \<lparr>version = n, html = h, timestamp = now e, author = (if a = [] then ''unknown'' else a)\<rparr>
     = payload_of_call (e, h, a)"
  by (simp add: payload_def payload_of_call_def)

lemma drop_drop_append:
  "drop (length (drop (length ys - m) ys @ zs) - m) (drop (length ys - m) ys @ zs)
     = drop (length (ys @ zs) - m) (ys @ (zs::'a list))"
  by (cases "length ys \<le> m") (auto simp: add.commute)

lemma saveSnippet_payloads:
  assumes "1 \<le> n" and "getProperty (fst (getAllSnippets e s)) sid \<noteq> Inherited"
  shows "map payload (versions_at (snd (saveSnippet e (Number (int n)) sid h a s)) sid) =
           drop (Suc (length (versions_at (snd (getAllSnippets e s)) sid)) - n)
             (map payload (versions_at (snd (getAllSnippets e s)) sid) @ [payload_of_call (e, h, a)])"
proof -
  let ?vs = "versions_at (snd (getAllSnippets e s)) sid"
  let ?v = "\<lparr>version = int (length ?vs), html = h, timestamp = now e,
              author = (if a = [] then ''unknown'' else a)\<rparr>"
  have "versions_at (snd (saveSnippet e (Number (int n)) sid h a s)) sid
          = (if int n < int (length (?vs @ [?v])) then slice (- int n) (?vs @ [?v]) else ?vs @ [?v])"
    by (simp add: saveSnippet_versions[OF assms(2)] Let_def)
  also have "\<dots> = drop (length (?vs @ [?v]) - n) (?vs @ [?v])"
    by (rule keep_last[OF assms(1)])
  finally have "map payload (versions_at (snd (saveSnippet e (Number (int n)) sid h a s)) sid)
           = drop (length (?vs @ [?v]) - n) (map payload (?vs @ [?v]))"
    by (simp only: drop_map)
  then show ?thesis by (simp add: payload_new del: drop_append)
qed

lemma saveSnippet_length_le:
  assumes "1 \<le> n" and "getProperty (fst (getAllSnippets e s)) sid \<noteq> Inherited"
  shows "length (versions_at (snd (saveSnippet e (Number (int n)) sid h a s)) sid) \<le> n"
proof -
  have "length (map payload (versions_at (snd (saveSnippet e (Number (int n)) sid h a s)) sid)) \<le> n"
    unfolding saveSnippet_payloads[OF assms] using assms(1) by simp
  then show ?thesis by simp
qed

text \<open>From a state whose cache is filled and holds at most \<open>n\<close> versions of the id,
  any run of saves leaves the last \<open>n\<close> of the old and new payloads.\<close>

lemma saveSnippets_payloads:
  assumes "1 \<le> n" and "\<not> inherited sid"
  shows "cache s \<noteq> None \<Longrightarrow> length (versions_at s sid) \<le> n \<Longrightarrow>
         map payload (versions_at (saveSnippets (Number (int n)) sid cs s) sid) =
           drop (length (map payload (versions_at s sid) @ map payload_of_call cs) - n)
                (map payload (versions_at s sid) @ map payload_of_call cs)"
proof (induction cs arbitrary: s)
  case Nil
  then show ?case by simp
next
  case (Cons x cs)
  obtain e h a where x: "x = (e, h, a)" by (cases x)
  define s1 where "s1 = snd (saveSnippet e (Number (int n)) sid h a s)"
  define L where "L = map payload (versions_at s sid)"
  define M where "M = map payload_of_call cs"
  define L1 where "L1 = map payload (versions_at s1 sid)"
  from Cons.prems obtain c where c: "cache s = Some c" by auto
  have view: "snd (getAllSnippets e s) = s" using c by (simp add: getAllSnippets_hit)
  have ni: "getProperty (fst (getAllSnippets e s)) sid \<noteq> Inherited"
    using assms(2) by (rule not_inherited_getProperty)
  have L1: "L1 = drop (length (L @ [payload_of_call x]) - n) (L @ [payload_of_call x])"
    using saveSnippet_payloads[OF assms(1) ni, of h a] by (simp add: view x L1_def L_def s1_def)
  have c1: "cache s1 \<noteq> None" unfolding s1_def by (rule saveSnippet_cache_some)
  have l1: "length (versions_at s1 sid) \<le> n"
    unfolding s1_def by (rule saveSnippet_length_le[OF assms(1) ni])
  have "map payload (versions_at (saveSnippets (Number (int n)) sid (x # cs) s) sid)
      = map payload (versions_at (saveSnippets (Number (int n)) sid cs s1) sid)"
    by (simp add: x s1_def)
  also have "\<dots> = drop (length (L1 @ M) - n) (L1 @ M)"
    unfolding L1_def M_def by (rule Cons.IH[OF c1 l1])
  also have "\<dots> = drop (length ((L @ [payload_of_call x]) @ M) - n) ((L @ [payload_of_call x]) @ M)"
    unfolding L1 by (rule drop_drop_append)
  also have "(L @ [payload_of_call x]) @ M = L @ map payload_of_call (x # cs)"
    by (simp add: M_def)
  finally show ?case unfolding L_def .
qed

text \<open>From any state at all, once at least \<open>n\<close> saves have been made.\<close>

lemma saveSnippets_payloads_any:
  assumes "1 \<le> n" and "n \<le> length cs" and "cs \<noteq> []" and "\<not> inherited sid"
  shows "map payload (versions_at (saveSnippets (Number (int n)) sid cs s) sid) =
           drop (length cs - n) (map payload_of_call cs)"
proof -
  obtain x rest where cs: "cs = x # rest" using assms(3) by (cases cs) auto
  obtain e h a where x: "x = (e, h, a)" by (cases x)
  define s1 where "s1 = snd (saveSnippet e (Number (int n)) sid h a s)"
  define L0 where "L0 = map payload (versions_at (snd (getAllSnippets e s)) sid)"
  define A where "A = L0 @ [payload_of_call x]"
  define M where "M = map payload_of_call rest"
  define L1 where "L1 = map payload (versions_at s1 sid)"
  have ni: "getProperty (fst (getAllSnippets e s)) sid \<noteq> Inherited"
    using assms(4) by (rule not_inherited_getProperty)
  have L1: "L1 = drop (length A - n) A"
    using saveSnippet_payloads[OF assms(1) ni, of h a]
    by (simp add: x L1_def A_def L0_def s1_def)
  have c1: "cache s1 \<noteq> None" unfolding s1_def by (rule saveSnippet_cache_some)
  have l1: "length (versions_at s1 sid) \<le> n"
    unfolding s1_def by (rule saveSnippet_length_le[OF assms(1) ni])
  have "map payload (versions_at (saveSnippets (Number (int n)) sid cs s) sid)
      = map payload (versions_at (saveSnippets (Number (int n)) sid rest s1) sid)"
    by (simp add: cs x s1_def)
  also have "\<dots> = drop (length (L1 @ M) - n) (L1 @ M)"
    unfolding L1_def M_def by (rule saveSnippets_payloads[OF assms(1) assms(4) c1 l1])
  also have "\<dots> = drop (length (A @ M) - n) (A @ M)"
    unfolding L1 by (rule drop_drop_append)
  also have "A @ M = L0 @ map payload_of_call cs"
    by (simp add: A_def M_def cs)
  also have "drop (length (L0 @ map payload_of_call cs) - n) (L0 @ map payload_of_call cs)
           = drop (length cs - n) (map payload_of_call cs)"
    using assms(2) by simp
  finally show ?thesis .
qed

text \<open>What trimming leaves of a list that has just been pushed to.\<close>

lemma kept_facts:
  fixes cap :: number
  defines "kept cp p \<equiv> (case cp of NaN \<Rightarrow> p
                         | Number m \<Rightarrow> if m < int (length p) then slice (- m) p else p)"
  shows "(kept cap (xs @ [v]) = [] \<or> last (kept cap (xs @ [v])) = v)
       \<and> ((cap = NaN \<or> (\<exists>m. cap = Number m \<and> 0 \<le> m)) \<longrightarrow> kept cap (xs @ [v]) \<noteq> [])"
proof (cases cap)
  case NaN
  then show ?thesis by (simp add: kept_def)
next
  case (Number m)
  show ?thesis
  proof (cases "m < int (length (xs @ [v]))")
    case True
    have a: "slice (- m) (xs @ [v]) = [] \<or> last (slice (- m) (xs @ [v])) = v"
      by (rule slice_last)
    have b: "0 \<le> m \<Longrightarrow> slice (- m) (xs @ [v]) \<noteq> []"
      using True slice_neg_nonempty by blast
    from a b True Number show ?thesis by (auto simp: kept_def)
  next
    case False
    with Number show ?thesis by (simp add: kept_def)
  qed
qed

lemma saveSnippet_state:
  assumes "getProperty (fst (getAllSnippets e s)) sid \<noteq> Inherited"
  shows "\<exists>v c sn. fst (saveSnippet e cap sid h a s) = Inr v
        \<and> html v = h
        \<and> cache (snd (saveSnippet e cap sid h a s)) = Some c
        \<and> c sid = Some sn
        \<and> currentVersion sn = version v
        \<and> (versions sn = [] \<or> last (versions sn) = v)
        \<and> ((cap = NaN \<or> (\<exists>m. cap = Number m \<and> 0 \<le> m)) \<longrightarrow> versions sn \<noteq> [])
        \<and> localStorage (snd (saveSnippet e cap sid h a s)) =
            (if setItem_ok e c then Item c else localStorage (snd (getAllSnippets e s)))"
proof -
  define c0 where "c0 = fst (getAllSnippets e s)"
  define s1 where "s1 = snd (getAllSnippets e s)"
  define sn0 where "sn0 = (case c0 sid of
                             None \<Rightarrow> \<lparr>snippetId = sid, versions = [], currentVersion = 0\<rparr>
                           | Some sn \<Rightarrow> sn)"
  define v where "v = \<lparr>version = int (length (versions sn0)), html = h, timestamp = now e,
                        author = (if a = [] then ''unknown'' else a)\<rparr>"
  define kept where "kept = (case cap of NaN \<Rightarrow> versions sn0 @ [v]
                         | Number m \<Rightarrow> if m < int (length (versions sn0 @ [v]))
                                      then slice (- m) (versions sn0 @ [v]) else versions sn0 @ [v])"
  define sn where "sn = sn0\<lparr>versions := kept, currentVersion := version v\<rparr>"
  define c where "c = c0(sid \<mapsto> sn)"
  have unf: "saveSnippet e cap sid h a s =
               (Inr v, snd (saveToAPI_begin c (saveToLocalStorage e c (s1\<lparr>cache := Some c\<rparr>))))"
    using assms
    by (simp add: saveSnippet_def split_beta Let_def c_def sn_def kept_def v_def sn0_def
        c0_def s1_def split del: if_split cong: if_cong number.case_cong)
  have k: "(kept = [] \<or> last kept = v)
         \<and> ((cap = NaN \<or> (\<exists>m. cap = Number m \<and> 0 \<le> m)) \<longrightarrow> kept \<noteq> [])"
    unfolding kept_def by (rule kept_facts)
  have 1: "fst (saveSnippet e cap sid h a s) = Inr v" by (simp add: unf)
  have 2: "html v = h" by (simp add: v_def)
  have 3: "cache (snd (saveSnippet e cap sid h a s)) = Some c"
    by (simp add: unf saveToAPI_begin_cache saveToLocalStorage_cache)
  have 4: "c sid = Some sn" by (simp add: c_def)
  have 5: "currentVersion sn = version v" by (simp add: sn_def)
  have 6: "versions sn = kept" by (simp add: sn_def)
  have 7: "localStorage (snd (saveSnippet e cap sid h a s)) =
            (if setItem_ok e c then Item c else localStorage (snd (getAllSnippets e s)))"
    by (simp add: unf saveToAPI_begin_store saveToLocalStorage_store s1_def)
  from 1 2 3 4 5 6 7 k show ?thesis by (intro exI[of _ v] exI[of _ c] exI[of _ sn]) simp
qed


text \<open>So every save that finds the cap already reached leaves the pointer at or past
  the end of the trimmed list.\<close>

lemma saveSnippet_current_past_end:
  assumes "1 \<le> n" and "n \<le> length (versions_at (snd (getAllSnippets e s)) sid)"
    and "getProperty (fst (getAllSnippets e s)) sid \<noteq> Inherited"
  shows "\<exists>k. current_at (snd (saveSnippet e (Number (int n)) sid h a s)) sid = Some k
           \<and> int (length (versions_at (snd (saveSnippet e (Number (int n)) sid h a s)) sid)) \<le> k"
proof -
  have "length (versions_at (snd (saveSnippet e (Number (int n)) sid h a s)) sid) \<le> n"
    by (rule saveSnippet_length_le[OF assms(1) assms(3)])
  with assms(2) show ?thesis by (simp add: saveSnippet_current[OF assms(3)])
qed

section \<open>Reading the cache\<close>

text \<open>C8: when the cache holds a collection, \<^verbatim>\<open>getAllSnippets\<close> returns that collection
  and leaves the whole state, trace included, as it was: no remote fetch, no local read
  or write. A second call right after the first therefore returns the same collection
  again, still without input or output.\<close>

theorem getAllSnippets_cache_hit:
  assumes "cache s = Some c"
  shows "getAllSnippets e s = (c, s)
       \<and> getAllSnippets e' (snd (getAllSnippets e s)) = (c, s)
       \<and> trace (snd (getAllSnippets e' (snd (getAllSnippets e s)))) = trace s"
  using assms by (simp add: getAllSnippets_def)

text \<open>C8 at the state after one save: the cache is filled, and two reads in a row,
  the second in another environment, add nothing to the trace.\<close>

theorem getAllSnippets_cache_hit_witness:
  "cache one_saved \<noteq> None
 \<and> snd (getAllSnippets env_ok one_saved) = one_saved
 \<and> snd (getAllSnippets env_put_fails (snd (getAllSnippets env_ok one_saved))) = one_saved
 \<and> trace (snd (getAllSnippets env_put_fails (snd (getAllSnippets env_ok one_saved))))
     = trace one_saved"
proof -
  have "cache one_saved \<noteq> None" by (simp add: evaluate)
  then obtain c where c: "cache one_saved = Some c" by auto
  note hit = getAllSnippets_cache_hit[OF c, of env_ok env_put_fails]
  from hit have first: "getAllSnippets env_ok one_saved = (c, one_saved)" by (rule conjunct1)
  from hit have second:
    "getAllSnippets env_put_fails (snd (getAllSnippets env_ok one_saved)) = (c, one_saved)"
    by blast
  from hit have quiet:
    "trace (snd (getAllSnippets env_put_fails (snd (getAllSnippets env_ok one_saved))))
       = trace one_saved"
    by blast
  have "snd (getAllSnippets env_ok one_saved) = one_saved" by (simp only: first snd_conv)
  moreover
  have "snd (getAllSnippets env_put_fails (snd (getAllSnippets env_ok one_saved))) = one_saved"
    by (simp only: second snd_conv)
  ultimately show ?thesis using c quiet by blast
qed

section \<open>Saving\<close>

text \<open>For every id that \<^verbatim>\<open>Object.prototype\<close> has no property for, every starting state
  and every run of \<open>N\<close> awaited saves of that id with \<open>N > maxVersionHistory \<ge> 1\<close>: the
  snippet is in the cache afterwards, its list of versions has exactly
  \<open>maxVersionHistory\<close> entries, these carry the html, timestamp and author of the last
  \<open>maxVersionHistory\<close> calls in order, and the html of the last entry is the html of the
  last call.\<close>

lemma saveSnippets_keeps_last_own:
  assumes "1 \<le> n" and "n < length cs" and "\<not> inherited sid"
  shows "\<exists>sn. cached (saveSnippets (Number (int n)) sid cs s) sid = Some sn
            \<and> length (versions sn) = n
            \<and> map payload (versions sn) = drop (length cs - n) (map payload_of_call cs)
            \<and> html (last (versions sn)) = fst (snd (last cs))"
proof -
  let ?vs = "versions_at (saveSnippets (Number (int n)) sid cs s) sid"
  from assms have ne: "cs \<noteq> []" by auto
  have P: "map payload ?vs = drop (length cs - n) (map payload_of_call cs)"
    using assms ne by (intro saveSnippets_payloads_any) simp_all
  then have "length (map payload ?vs) = n" using assms by simp
  then have len: "length ?vs = n" by simp
  then have vne: "?vs \<noteq> []" using assms(1) by auto
  then obtain sn where sn: "cached (saveSnippets (Number (int n)) sid cs s) sid = Some sn"
      "versions sn = ?vs"
    using versions_at_cached by blast
  have "html (last ?vs) = fst (last (map payload ?vs))"
    using vne by (simp add: last_map payload_def)
  also have "\<dots> = fst (last (map payload_of_call cs))"
    unfolding P using assms by (simp add: last_drop)
  also have "\<dots> = fst (snd (last cs))"
    using ne by (simp add: last_map payload_of_call_def split_beta)
  finally have "html (last ?vs) = fst (snd (last cs))" .
  then show ?thesis using sn len P by simp
qed

text \<open>C4 fails on the code for an id that names a property of \<^verbatim>\<open>Object.prototype\<close>, such
  as \<^verbatim>\<open>constructor\<close>, which \<^verbatim>\<open>Utils.sanitizeSnippetId\<close> lets through unchanged. On a
  collection without such a key \<^verbatim>\<open>allSnippets['constructor']\<close> is the inherited function,
  so \<^verbatim>\<open>saveSnippet\<close> creates no snippet and throws a \<^verbatim>\<open>TypeError\<close> at
  \<^verbatim>\<open>snippet.versions.length\<close>. With a cap of two, each of three saves of that id fails
  and the collection holds no snippet for it afterwards, where the claim has a ledger
  of two versions ending with the last content.\<close>

theorem saveSnippet_inherited_id_throws:
  "fst (saveSnippet env_ok (Number 2) ''constructor'' ''A'' ''me'' initial) = Inl TypeError
 \<and> fst (saveSnippet env_ok (Number 2) ''constructor'' ''B'' ''me''
          (snd (saveSnippet env_ok (Number 2) ''constructor'' ''A'' ''me'' initial)))
     = Inl TypeError
 \<and> cached
      (saveSnippets (Number 2) ''constructor''
         [(env_ok, ''A'', ''me''), (env_ok, ''B'', ''me''), (env_ok, ''C'', ''me'')] initial)
      ''constructor'' = None
 \<and> versions_at
      (saveSnippets (Number 2) ''constructor''
         [(env_ok, ''A'', ''me''), (env_ok, ''B'', ''me''), (env_ok, ''C'', ''me'')] initial)
      ''constructor'' = []"
  by (simp add: evaluate)

text \<open>A negative cap, which the settings field can produce, makes \<^verbatim>\<open>slice\<close> drop from
  the front: with \<^verbatim>\<open>CONFIG.maxVersionHistory = -1\<close> the first save of an id returns its
  version and leaves the snippet in the cache with an empty ledger; with \<^verbatim>\<open>NaN\<close> nothing
  is ever trimmed.\<close>

lemma saveSnippet_negative_cap:
  "versions_at (snd (saveSnippet env_ok (Number (- 1)) ''a'' ''A'' ''me'' initial)) ''a'' = []
 \<and> current_at (snd (saveSnippet env_ok (Number (- 1)) ''a'' ''A'' ''me'' initial)) ''a'' = Some 0
 \<and> map html
      (versions_at
        (saveSnippets NaN ''a'' [(env_ok, ''A'', ''me''), (env_ok, ''B'', ''me'')] initial) ''a'')
     = [''A'', ''B'']"
  by (simp add: evaluate)

text \<open>C9 fails as stated when the local store rejects the write: \<^verbatim>\<open>saveToLocalStorage\<close>
  catches the exception of \<^verbatim>\<open>localStorage.setItem\<close> and only logs it. After a first save
  in such an environment the cache holds the new version and the local store holds
  nothing.\<close>

theorem saveSnippet_local_write_rejected:
  "map html (versions_at (snd (saveSnippet env_quota (Number 10) ''a'' ''A'' ''me'' initial)) ''a'')
     = [''A'']
 \<and> localStorage (snd (saveSnippet env_quota (Number 10) ''a'' ''A'' ''me'' initial)) = NoItem"
  by (simp add: evaluate)

text \<open>C9, amended: for every \<^verbatim>\<open>saveSnippet\<close> call whose id is a key of the collection or
  is not the name of a property inherited from \<^verbatim>\<open>Object.prototype\<close>, whatever the value
  of \<^verbatim>\<open>CONFIG.maxVersionHistory\<close>: the call returns the version it created, with the html
  given, the time of the call and the length of the ledger before the call as its
  number; after the call the cache holds the snippet with \<^verbatim>\<open>currentVersion\<close> set to that
  number and with the ledger as trimmed, which is empty or ends with the new version,
  and is not empty when the cap is \<^verbatim>\<open>NaN\<close> or not negative; the local store holds the
  updated collection when \<^verbatim>\<open>localStorage\<close> accepted the write and is left as it was
  otherwise; and when the push settles later, with either outcome, neither the cache
  nor the local store changes.\<close>

theorem saveSnippet_local_commit:
  assumes "fst (getAllSnippets e s) sid \<noteq> None \<or> \<not> inherited sid"
  shows "\<exists>v c sn. fst (saveSnippet e cap sid h a s) = Inr v
        \<and> html v = h
        \<and> timestamp v = now e
        \<and> version v = int (length (versions_at (snd (getAllSnippets e s)) sid))
        \<and> cache (snd (saveSnippet e cap sid h a s)) = Some c
        \<and> c sid = Some sn
        \<and> currentVersion sn = version v
        \<and> (versions sn = [] \<or> last (versions sn) = v)
        \<and> ((cap = NaN \<or> (\<exists>m. cap = Number m \<and> 0 \<le> m)) \<longrightarrow> versions sn \<noteq> [])
        \<and> localStorage (snd (saveSnippet e cap sid h a s)) =
            (if setItem_ok e c then Item c else localStorage (snd (getAllSnippets e s)))
        \<and> cache (saveSnippet_settled e' (snd (saveSnippet e cap sid h a s))) = Some c
        \<and> localStorage (saveSnippet_settled e' (snd (saveSnippet e cap sid h a s))) =
            localStorage (snd (saveSnippet e cap sid h a s))"
proof -
  from assms have ni: "getProperty (fst (getAllSnippets e s)) sid \<noteq> Inherited"
    by (auto simp: getProperty_Inherited)
  from saveSnippet_state[OF ni, of cap h a]
  obtain v c sn where st: "fst (saveSnippet e cap sid h a s) = Inr v" "html v = h"
      "cache (snd (saveSnippet e cap sid h a s)) = Some c" "c sid = Some sn"
      "currentVersion sn = version v" "versions sn = [] \<or> last (versions sn) = v"
      "(cap = NaN \<or> (\<exists>m. cap = Number m \<and> 0 \<le> m)) \<longrightarrow> versions sn \<noteq> []"
      "localStorage (snd (saveSnippet e cap sid h a s)) =
         (if setItem_ok e c then Item c else localStorage (snd (getAllSnippets e s)))"
    by blast
  from st(1) saveSnippet_result[OF ni, of cap h a]
  have v: "timestamp v = now e"
          "version v = int (length (versions_at (snd (getAllSnippets e s)) sid))"
    by auto
  have "cache (saveSnippet_settled e' (snd (saveSnippet e cap sid h a s))) = Some c"
    by (simp add: saveSnippet_settled_cache st(3))
  moreover
  have "localStorage (saveSnippet_settled e' (snd (saveSnippet e cap sid h a s))) =
            localStorage (snd (saveSnippet e cap sid h a s))"
    by (rule saveSnippet_settled_store)
  ultimately show ?thesis using st v by blast
qed

text \<open>C9, amended, at a first save whose push is rejected afterwards: the id is not an
  inherited name and the cap is 10; the version is returned, and the cache and the local
  store still hold the snippet, with that version, once the push has failed.\<close>

theorem saveSnippet_local_commit_witness:
  "\<not> inherited ''a''
 \<and> map_sum (\<lambda>err. err) html (fst (saveSnippet env_ok (Number 10) ''a'' ''A'' ''me'' initial))
     = Inr ''A''
 \<and> map html
      (versions_at
        (saveSnippet_settled env_put_fails
           (snd (saveSnippet env_ok (Number 10) ''a'' ''A'' ''me'' initial))) ''a'')
     \<noteq> []
 \<and> stored_at
      (saveSnippet_settled env_put_fails
         (snd (saveSnippet env_ok (Number 10) ''a'' ''A'' ''me'' initial))) ''a''
     = cached
        (saveSnippet_settled env_put_fails
           (snd (saveSnippet env_ok (Number 10) ''a'' ''A'' ''me'' initial))) ''a''"
proof -
  let ?r = "saveSnippet env_ok (Number 10) ''a'' ''A'' ''me'' initial"
  let ?s = "saveSnippet_settled env_put_fails (snd ?r)"
  have h: "\<not> inherited ''a''" by (simp add: inherited_def)
  then have hyp: "fst (getAllSnippets env_ok initial) ''a'' \<noteq> None \<or> \<not> inherited ''a''" by blast
  from saveSnippet_local_commit[OF hyp, of "Number 10" "''A''" "''me''" env_put_fails]
  obtain v c sn where r: "fst ?r = Inr v" and hv: "html v = ''A''"
    and c: "cache ?s = Some c" and sn: "c ''a'' = Some sn"
    and ne: "(Number 10 = NaN \<or> (\<exists>m. Number 10 = Number m \<and> 0 \<le> m)) \<longrightarrow> versions sn \<noteq> []"
    and st: "localStorage (snd ?r) =
               (if setItem_ok env_ok c then Item c
                else localStorage (snd (getAllSnippets env_ok initial)))"
    and keep: "localStorage ?s = localStorage (snd ?r)"
    by blast
  from r hv have 1: "map_sum (\<lambda>err. err) html (fst ?r) = Inr ''A''" by simp
  from ne have "versions sn \<noteq> []" by simp
  with c sn have 2: "map html (versions_at ?s ''a'') \<noteq> []" by (simp add: versions_at_def)
  have "localStorage ?s = Item c" using st keep by (simp add: env_ok_def)
  with c have 3: "stored_at ?s ''a'' = cached ?s ''a''" by (simp add: stored_at_def cached_def)
  from h 1 2 3 show ?thesis by blast
qed

text \<open>C2 fails on the code at the first save that trims. \<^verbatim>\<open>saveSnippet\<close> sets
  \<^verbatim>\<open>currentVersion\<close> to the length the array had before the push and trims afterwards,
  so with a cap of two the third save leaves two versions and the pointer at index 2,
  past the end of the array, where \<^verbatim>\<open>renderSnippet\<close> finds no version.\<close>

theorem saveSnippet_trim_pointer_past_end:
  "map html
     (versions_at
       (saveSnippets (Number 2) ''a''
          [(env_ok, ''A'', ''me''), (env_ok, ''B'', ''me''), (env_ok, ''C'', ''me'')]
          initial) ''a'') = [''B'', ''C'']
 \<and> current_at
      (saveSnippets (Number 2) ''a''
         [(env_ok, ''A'', ''me''), (env_ok, ''B'', ''me''), (env_ok, ''C'', ''me'')]
         initial) ''a'' = Some 2"
  by (simp add: evaluate)

text \<open>C3 fails on the code once trimming has begun. The number of a new version is the
  current length of the array, which stays at the cap from then on: with a cap of two,
  the third and the fourth version both get number 2.\<close>

theorem saveSnippet_trim_repeats_number:
  "map version
     (versions_at
       (saveSnippets (Number 2) ''a''
          [(env_ok, ''A'', ''me''), (env_ok, ''B'', ''me''), (env_ok, ''C'', ''me''), (env_ok, ''D'', ''me'')]
          initial) ''a'') = [2, 2]
 \<and> map html
     (versions_at
       (saveSnippets (Number 2) ''a''
          [(env_ok, ''A'', ''me''), (env_ok, ''B'', ''me''), (env_ok, ''C'', ''me''), (env_ok, ''D'', ''me'')]
          initial) ''a'') = [''C'', ''D'']"
  by (simp add: evaluate)


section \<open>Restoring\<close>

text \<open>C1 fails on the code: \<^verbatim>\<open>StorageManager.restoreVersion\<close> only assigns
  \<^verbatim>\<open>currentVersion\<close>, although the confirmation shown by \<^verbatim>\<open>UIManager.restoreVersion\<close>
  announces a new version. With versions A and B stored and B current, restoring index 0
  returns version A and moves the pointer to 0; the ledger still has the two entries
  A and B, and its newest entry is B.\<close>

theorem restoreVersion_only_moves_pointer:
  "map html (versions_at two_saved ''a'') = [''A'', ''B'']
 \<and> current_at two_saved ''a'' = Some 1
 \<and> fst (restoreVersion env_ok ''a'' 0 two_saved)
     = Inr \<lparr>version = 0, html = ''A'', timestamp = ''2024-01-01T00:00:00.000Z'', author = ''me''\<rparr>
 \<and> map html (versions_at (snd (restoreVersion env_ok ''a'' 0 two_saved)) ''a'') = [''A'', ''B'']
 \<and> current_at (snd (restoreVersion env_ok ''a'' 0 two_saved)) ''a'' = Some 0"
  by (simp add: evaluate)

section \<open>Deleting\<close>

text \<open>C7 fails as stated while a push is in flight. A first \<^verbatim>\<open>saveSnippet\<close> returns with
  its push started and \<^verbatim>\<open>syncInProgress\<close> raised; a \<^verbatim>\<open>deleteSnippet\<close> made then finds the
  flag raised in \<^verbatim>\<open>saveToAPI\<close>, which returns at once: the call succeeds and the trace
  holds no more pushes than before it.\<close>

theorem deleteSnippet_skips_push_in_flight:
  "syncInProgress (snd (saveSnippet env_ok (Number 10) ''a'' ''A'' ''me'' initial))
 \<and> fst (deleteSnippet env_ok ''a'' (snd (saveSnippet env_ok (Number 10) ''a'' ''A'' ''me'' initial)))
     = Inr ()
 \<and> cached
      (snd (deleteSnippet env_ok ''a'' (snd (saveSnippet env_ok (Number 10) ''a'' ''A'' ''me'' initial))))
      ''a'' = None
 \<and> pushes
      (trace (snd (deleteSnippet env_ok ''a''
                     (snd (saveSnippet env_ok (Number 10) ''a'' ''A'' ''me'' initial)))))
     = pushes (trace (snd (saveSnippet env_ok (Number 10) ''a'' ''A'' ''me'' initial)))"
  by (simp add: evaluate)

text \<open>C7, amended: every \<^verbatim>\<open>deleteSnippet(id)\<close> call removes the key from the cache, then
  writes the updated collection to the local store (a write the store rejects is logged
  and leaves the store as it was), then awaits \<^verbatim>\<open>saveToAPI\<close>: when no push is in flight
  one push of the updated collection is made, after the local write, and the call fails
  exactly when that push fails; when a push is in flight no push is made and the call
  succeeds. The flag \<^verbatim>\<open>syncInProgress\<close> is afterwards what it was before.\<close>

theorem deleteSnippet_effects:
  "cache (snd (deleteSnippet e sid s)) = Some ((fst (getAllSnippets e s))(sid := None))
 \<and> localStorage (snd (deleteSnippet e sid s)) =
     (if setItem_ok e ((fst (getAllSnippets e s))(sid := None))
      then Item ((fst (getAllSnippets e s))(sid := None))
      else localStorage (snd (getAllSnippets e s)))
 \<and> trace (snd (deleteSnippet e sid s)) =
     trace (snd (getAllSnippets e s))
       @ LocalSet ((fst (getAllSnippets e s))(sid := None))
       # (if setItem_ok e ((fst (getAllSnippets e s))(sid := None)) then []
          else [LogError ''Failed to save to localStorage''])
       @ (if syncInProgress s then []
          else RemotePut ((fst (getAllSnippets e s))(sid := None))
               # (if put_ok e then [] else [LogError ''Failed to save to API'']))
 \<and> fst (deleteSnippet e sid s) =
     (if \<not> syncInProgress s \<and> \<not> put_ok e then Inl RemoteWriteError else Inr ())
 \<and> syncInProgress (snd (deleteSnippet e sid s)) = syncInProgress s"
  by (intro conjI deleteSnippet_cache deleteSnippet_store deleteSnippet_trace
       deleteSnippet_result deleteSnippet_sync)

text \<open>C7, amended, at a delete made after the push of the save has settled: the snippet
  leaves the cache, exactly one push is added to the trace, and the call succeeds.\<close>

theorem deleteSnippet_effects_witness:
  "\<not> syncInProgress one_saved
 \<and> cached one_saved ''a'' \<noteq> None
 \<and> cached (snd (deleteSnippet env_ok ''a'' one_saved)) ''a'' = None
 \<and> pushes (trace (snd (deleteSnippet env_ok ''a'' one_saved))) = Suc (pushes (trace one_saved))
 \<and> fst (deleteSnippet env_ok ''a'' one_saved) = Inr ()"
proof -
  note T = deleteSnippet_effects[of env_ok "''a''" one_saved]
  have c1: "cache one_saved \<noteq> None" by (simp add: evaluate)
  then have v: "snd (getAllSnippets env_ok one_saved) = one_saved"
    by (auto simp: getAllSnippets_state_hit)
  have a: "\<not> syncInProgress one_saved" by (simp add: evaluate)
  have b: "cached one_saved ''a'' \<noteq> None" by (simp add: evaluate)
  have k: "put_ok env_ok" "setItem_ok env_ok x" for x by (simp_all add: env_ok_def)
  from T have c: "cached (snd (deleteSnippet env_ok ''a'' one_saved)) ''a'' = None"
    by (simp add: cached_def)
  from T a have d:
    "pushes (trace (snd (deleteSnippet env_ok ''a'' one_saved))) = Suc (pushes (trace one_saved))"
    by (simp add: v k pushes_def)
  from T a have r: "fst (deleteSnippet env_ok ''a'' one_saved) = Inr ()"
    by (simp add: k)
  from a b c d r show ?thesis by blast
qed

text \<open>C10: when the id is not in the collection that \<^verbatim>\<open>getAllSnippets\<close> yields,
  \<^verbatim>\<open>deleteSnippet\<close> never fails with \<open>VersionNotFound\<close> or any other error of the local
  path: the only failure left is that of the remote push, so the call succeeds whenever
  the push succeeds or is skipped. The cache afterwards holds the collection unchanged.\<close>

theorem deleteSnippet_absent_id:
  assumes "fst (getAllSnippets e s) sid = None"
  shows "fst (deleteSnippet e sid s) =
           (if \<not> syncInProgress s \<and> \<not> put_ok e then Inl RemoteWriteError else Inr ())
       \<and> fst (deleteSnippet e sid s) \<noteq> Inl VersionNotFound
       \<and> fst (deleteSnippet e sid s) \<noteq> Inl InvalidImportData
       \<and> fst (deleteSnippet e sid s) \<noteq> Inl TypeError
       \<and> cache (snd (deleteSnippet e sid s)) = Some (fst (getAllSnippets e s))"
proof -
  have "(fst (getAllSnippets e s))(sid := None) = fst (getAllSnippets e s)"
    using assms by (rule fun_upd_idem)
  then show ?thesis by (simp add: deleteSnippet_cache deleteSnippet_result)
qed

text \<open>C10 at the state that holds only snippet \<^verbatim>\<open>a\<close>: deleting \<^verbatim>\<open>b\<close> succeeds and the
  cache is the one from before.\<close>

theorem deleteSnippet_absent_id_witness:
  "fst (getAllSnippets env_ok one_saved) ''b'' = None
 \<and> fst (deleteSnippet env_ok ''b'' one_saved) = Inr ()
 \<and> cache (snd (deleteSnippet env_ok ''b'' one_saved)) = cache one_saved"
proof -
  have h: "fst (getAllSnippets env_ok one_saved) ''b'' = None" by (simp add: evaluate)
  note T = deleteSnippet_absent_id[OF h]
  have "cache one_saved \<noteq> None" by (simp add: evaluate)
  then have v: "snd (getAllSnippets env_ok one_saved) = one_saved"
    by (auto simp: getAllSnippets_state_hit)
  have k: "put_ok env_ok" by (simp add: env_ok_def)
  from T k have r: "fst (deleteSnippet env_ok ''b'' one_saved) = Inr ()" by simp
  from T have "cache (snd (deleteSnippet env_ok ''b'' one_saved))
             = Some (fst (getAllSnippets env_ok one_saved))" by blast
  also have "\<dots> = cache one_saved"
    using getAllSnippets_cache[of env_ok one_saved] by (simp add: v)
  finally show ?thesis using h r by blast
qed

section \<open>Failures that reach the caller\<close>

text \<open>C6 fails as stated when the awaited push fails. \<^verbatim>\<open>deleteSnippet\<close> deletes the key
  from the cache object before it calls \<^verbatim>\<open>saveToAPI\<close>, and nothing puts it back: the call
  ends with the error of the push and the snippet is gone from the cache.\<close>

theorem deleteSnippet_push_failure_mutates_cache:
  "map html (versions_at one_saved ''a'') = [''A'']
 \<and> fst (deleteSnippet env_put_fails ''a'' one_saved) = Inl RemoteWriteError
 \<and> cached (snd (deleteSnippet env_put_fails ''a'' one_saved)) ''a'' = None
 \<and> cached (snd (deleteSnippet env_put_fails ''a'' one_saved)) ''a'' \<noteq> cached one_saved ''a''"
  by (simp add: evaluate)

text \<open>C6, amended. A failure raised before anything is written leaves the state as the
  read of the collection left it, cache and local store alike: \<^verbatim>\<open>restoreVersion\<close> ending
  with any error other than that of the push, and the import of a text that does not
  parse. A failure of the awaited remote push comes after the change has been made in
  the cache, and the change is kept there: after \<^verbatim>\<open>deleteSnippet\<close> the id is deleted, after
  \<^verbatim>\<open>restoreVersion\<close> the pointer is moved, after the import the collections are merged.
  The local store then holds the changed collection too when \<^verbatim>\<open>localStorage\<close> accepted
  the write, and is left as the read left it when the write was rejected.\<close>

theorem failure_keeps_local_commit:
  "(fst (restoreVersion e1 sid1 k1 s1) = Inl err \<and> err \<noteq> RemoteWriteError \<longrightarrow>
      snd (restoreVersion e1 sid1 k1 s1) = snd (getAllSnippets e1 s1))
 \<and> importSnippets e2 None s2 = (Inl InvalidImportData, s2)
 \<and> (fst (deleteSnippet e3 sid3 s3) = Inl RemoteWriteError \<longrightarrow>
      cache (snd (deleteSnippet e3 sid3 s3)) = Some ((fst (getAllSnippets e3 s3))(sid3 := None))
    \<and> localStorage (snd (deleteSnippet e3 sid3 s3)) =
        (if setItem_ok e3 ((fst (getAllSnippets e3 s3))(sid3 := None))
         then Item ((fst (getAllSnippets e3 s3))(sid3 := None))
         else localStorage (snd (getAllSnippets e3 s3))))
 \<and> (fst (restoreVersion e4 sid4 k4 s4) = Inl RemoteWriteError \<longrightarrow>
      (\<exists>sn. fst (getAllSnippets e4 s4) sid4 = Some sn
          \<and> cache (snd (restoreVersion e4 sid4 k4 s4)) =
              Some ((fst (getAllSnippets e4 s4))(sid4 \<mapsto> sn\<lparr>currentVersion := k4\<rparr>))
          \<and> localStorage (snd (restoreVersion e4 sid4 k4 s4)) =
              (if setItem_ok e4 ((fst (getAllSnippets e4 s4))(sid4 \<mapsto> sn\<lparr>currentVersion := k4\<rparr>))
               then Item ((fst (getAllSnippets e4 s4))(sid4 \<mapsto> sn\<lparr>currentVersion := k4\<rparr>))
               else localStorage (snd (getAllSnippets e4 s4)))))
 \<and> (fst (importSnippets e5 (Some inc) s5) = Inl RemoteWriteError \<longrightarrow>
      cache (snd (importSnippets e5 (Some inc) s5)) = Some (fst (getAllSnippets e5 s5) ++ inc)
    \<and> localStorage (snd (importSnippets e5 (Some inc) s5)) =
        (if setItem_ok e5 (fst (getAllSnippets e5 s5) ++ inc)
         then Item (fst (getAllSnippets e5 s5) ++ inc)
         else localStorage (snd (getAllSnippets e5 s5))))"
proof -
  have a: "fst (restoreVersion e1 sid1 k1 s1) = Inl err \<and> err \<noteq> RemoteWriteError \<longrightarrow>
      snd (restoreVersion e1 sid1 k1 s1) = snd (getAllSnippets e1 s1)"
    using restoreVersion_early by blast
  have b: "importSnippets e2 None s2 = (Inl InvalidImportData, s2)"
    by (simp add: importSnippets_def)
  note c = deleteSnippet_cache[of e3 sid3 s3] deleteSnippet_store[of e3 sid3 s3]
  have d: "fst (restoreVersion e4 sid4 k4 s4) = Inl RemoteWriteError \<longrightarrow>
      (\<exists>sn. fst (getAllSnippets e4 s4) sid4 = Some sn
          \<and> cache (snd (restoreVersion e4 sid4 k4 s4)) =
              Some ((fst (getAllSnippets e4 s4))(sid4 \<mapsto> sn\<lparr>currentVersion := k4\<rparr>))
          \<and> localStorage (snd (restoreVersion e4 sid4 k4 s4)) =
              (if setItem_ok e4 ((fst (getAllSnippets e4 s4))(sid4 \<mapsto> sn\<lparr>currentVersion := k4\<rparr>))
               then Item ((fst (getAllSnippets e4 s4))(sid4 \<mapsto> sn\<lparr>currentVersion := k4\<rparr>))
               else localStorage (snd (getAllSnippets e4 s4))))"
    using restoreVersion_pushed by blast
  note e = importSnippets_cache[of e5 inc s5] importSnippets_store[of e5 inc s5]
  from a b c d e show ?thesis by blast
qed

text \<open>C6, amended, at concrete calls. A restore of index 5 of a one-version snippet fails
  and leaves the state. A delete whose push fails ends with the error of the push and
  without the snippet in the cache; the local store has lost it too when it accepted the
  write, and still holds it when it rejected the write. A restore of index 0 whose push
  fails leaves the pointer at 0 in the cache and in the local store. An import of
  snippet \<^verbatim>\<open>b\<close> whose push fails leaves \<^verbatim>\<open>a\<close> and \<^verbatim>\<open>b\<close> in the cache and \<^verbatim>\<open>b\<close> in the
  local store.\<close>

theorem failure_keeps_local_commit_witness:
  "fst (restoreVersion env_ok ''a'' 5 one_saved) = Inl VersionNotFound
 \<and> snd (restoreVersion env_ok ''a'' 5 one_saved) = one_saved
 \<and> fst (deleteSnippet env_put_fails ''a'' one_saved) = Inl RemoteWriteError
 \<and> cached (snd (deleteSnippet env_put_fails ''a'' one_saved)) ''a'' = None
 \<and> stored_at (snd (deleteSnippet env_put_fails ''a'' one_saved)) ''a'' = None
 \<and> fst (deleteSnippet env_all_fail ''a'' one_saved) = Inl RemoteWriteError
 \<and> cached (snd (deleteSnippet env_all_fail ''a'' one_saved)) ''a'' = None
 \<and> stored_at (snd (deleteSnippet env_all_fail ''a'' one_saved)) ''a'' = cached one_saved ''a''
 \<and> cached one_saved ''a'' \<noteq> None
 \<and> fst (restoreVersion env_put_fails ''a'' 0 two_saved) = Inl RemoteWriteError
 \<and> current_at two_saved ''a'' = Some 1
 \<and> current_at (snd (restoreVersion env_put_fails ''a'' 0 two_saved)) ''a'' = Some 0
 \<and> map_option currentVersion (stored_at (snd (restoreVersion env_put_fails ''a'' 0 two_saved)) ''a'')
     = Some 0
 \<and> fst (importSnippets env_put_fails (Some incoming) one_saved) = Inl RemoteWriteError
 \<and> cached (snd (importSnippets env_put_fails (Some incoming) one_saved)) ''a'' = cached one_saved ''a''
 \<and> cached (snd (importSnippets env_put_fails (Some incoming) one_saved)) ''b'' = incoming ''b''
 \<and> stored_at (snd (importSnippets env_put_fails (Some incoming) one_saved)) ''b'' = incoming ''b''
 \<and> incoming ''b'' \<noteq> None"
proof -
  note T = failure_keeps_local_commit[where ?e1.0 = env_ok and ?sid1.0 = "''a''" and ?k1.0 = 5
      and ?s1.0 = one_saved and err = VersionNotFound
      and ?e3.0 = env_put_fails and ?sid3.0 = "''a''" and ?s3.0 = one_saved
      and ?e4.0 = env_put_fails and ?sid4.0 = "''a''" and ?k4.0 = 0 and ?s4.0 = two_saved
      and ?e5.0 = env_put_fails and inc = incoming and ?s5.0 = one_saved]
  note U = failure_keeps_local_commit[where ?e3.0 = env_all_fail and ?sid3.0 = "''a''"
      and ?s3.0 = one_saved]
  have c1: "cache one_saved \<noteq> None" by (simp add: evaluate)
  then obtain c where c: "cache one_saved = Some c" by auto
  have v: "getAllSnippets e one_saved = (c, one_saved)" for e
    using c by (rule getAllSnippets_hit)
  have ok: "setItem_ok env_put_fails x" and no: "\<not> setItem_ok env_all_fail x" for x
    by (simp_all add: env_put_fails_def env_all_fail_def env_ok_def)
  have st1: "localStorage one_saved = Item c" using c by (simp add: evaluate)
  have own: "cached one_saved ''a'' \<noteq> None" by (simp add: evaluate)
  have h1: "fst (restoreVersion env_ok ''a'' 5 one_saved) = Inl VersionNotFound"
    by (simp add: evaluate)
  have h3: "fst (deleteSnippet env_put_fails ''a'' one_saved) = Inl RemoteWriteError"
    by (simp add: evaluate)
  have h3': "fst (deleteSnippet env_all_fail ''a'' one_saved) = Inl RemoteWriteError"
    by (simp add: evaluate)
  have h4: "fst (restoreVersion env_put_fails ''a'' 0 two_saved) = Inl RemoteWriteError"
    by (simp add: evaluate)
  have h5: "fst (importSnippets env_put_fails (Some incoming) one_saved) = Inl RemoteWriteError"
    by (simp add: evaluate)
  have p: "current_at two_saved ''a'' = Some 1" by (simp add: evaluate)
  have ib: "incoming ''b'' \<noteq> None" "incoming ''a'' = None" by (simp_all add: incoming_def)
  from T h1 have r1: "snd (restoreVersion env_ok ''a'' 5 one_saved) = one_saved"
    by (simp add: v)
  from T h3 have r3: "cached (snd (deleteSnippet env_put_fails ''a'' one_saved)) ''a'' = None"
      "stored_at (snd (deleteSnippet env_put_fails ''a'' one_saved)) ''a'' = None"
    by (simp_all add: cached_def stored_at_def ok)
  from U h3' have r3': "cached (snd (deleteSnippet env_all_fail ''a'' one_saved)) ''a'' = None"
      "stored_at (snd (deleteSnippet env_all_fail ''a'' one_saved)) ''a'' = cached one_saved ''a''"
    by (simp_all add: cached_def stored_at_def no v st1 c)
  from T h4 obtain sn where
    "cache (snd (restoreVersion env_put_fails ''a'' 0 two_saved)) =
       Some ((fst (getAllSnippets env_put_fails two_saved))(''a'' \<mapsto> sn\<lparr>currentVersion := 0\<rparr>))"
    "localStorage (snd (restoreVersion env_put_fails ''a'' 0 two_saved)) =
       Item ((fst (getAllSnippets env_put_fails two_saved))(''a'' \<mapsto> sn\<lparr>currentVersion := 0\<rparr>))"
    by (auto simp: ok)
  then have r4: "current_at (snd (restoreVersion env_put_fails ''a'' 0 two_saved)) ''a'' = Some 0"
    "map_option currentVersion
       (stored_at (snd (restoreVersion env_put_fails ''a'' 0 two_saved)) ''a'') = Some 0"
    by (simp_all add: current_at_def stored_at_def)
  from T h5 have r5:
    "cached (snd (importSnippets env_put_fails (Some incoming) one_saved)) ''a'' = cached one_saved ''a''"
    "cached (snd (importSnippets env_put_fails (Some incoming) one_saved)) ''b'' = incoming ''b''"
    "stored_at (snd (importSnippets env_put_fails (Some incoming) one_saved)) ''b'' = incoming ''b''"
    using ib by (auto simp: cached_def stored_at_def ok v c map_add_def split: option.splits)
  from h1 r1 h3 r3 h3' r3' own h4 p r4 h5 r5 ib(1) show ?thesis by blast
qed

section \<open>Debouncing\<close>

text \<open>C5 fails on the code: all watched elements share the one timer of the one
  \<^verbatim>\<open>debouncedSave\<close>. Alone, a mutation of element 2 is saved once the delay has passed.
  When element 1 is mutated one second after element 2, inside the delay of two seconds,
  the timer set for element 2 is cleared; only the save of snippet \<^verbatim>\<open>a\<close> is ever made,
  and the change of snippet \<^verbatim>\<open>b\<close> is not saved however long one waits.\<close>

theorem debounce_shared_timer_drops_save:
  "saves (run 2000 [Mutation 2 ''B1'', Elapse 5000] two_regions) = [(''b'', ''B1'')]
 \<and> saves (run 2000 [Mutation 2 ''B1'', Elapse 1000, Mutation 1 ''A1'', Elapse 5000, Elapse 60000]
      two_regions) = [(''a'', ''A1'')]"
  by (simp add: two_regions_def executedFunction_def later_def)

end
